theory Spec2Isabelle
  imports Main "HOL-Library.Multiset" "HOL-Library.Sublist"
begin

section \<open>The Hacker News client: data model\<close>

text \<open>
  The embedding follows the API client (\<^verbatim>\<open>api.ts\<close>) and the two tool handlers of
  \<^verbatim>\<open>tools.ts\<close> that call \<^verbatim>\<open>getStories\<close> and \<^verbatim>\<open>getCommentTree\<close>.

  Conventions.
  \<^item> A TypeScript \<^verbatim>\<open>number\<close> that the code uses as an id, a count, a depth or an index
    is an \<^typ>\<open>int\<close>: negative values are kept, fractions and \<^verbatim>\<open>NaN\<close> are not modelled.
  \<^item> An optional field \<^verbatim>\<open>f?: T\<close> is a \<^typ>\<open>'a option\<close>; \<open>None\<close> is \<^verbatim>\<open>undefined\<close>.
  \<^item> \<^verbatim>\<open>T | null\<close> is a \<^typ>\<open>'a option\<close> as well; \<open>None\<close> is \<^verbatim>\<open>null\<close> (the spec's absence).
  \<^item> Field names carry the name of their interface as a prefix, since \<^verbatim>\<open>id\<close>,
    \<^verbatim>\<open>by\<close>, \<^verbatim>\<open>text\<close> and \<^verbatim>\<open>type\<close> are taken in Isabelle; a parameter \<^verbatim>\<open>id\<close> is
    written \<open>id'\<close>.
\<close>

datatype item_type = Job | Story | Comment | Poll | PollOpt

record HNItem =
  item_id :: int
  item_type :: "item_type option"
  item_by :: "string option"
  item_time :: "int option"
  item_text :: "string option"
  item_url :: "string option"
  item_title :: "string option"
  item_score :: "int option"
  item_descendants :: "int option"
  item_kids :: "int list option"
  item_parent :: "int option"
  item_parts :: "int list option"
  item_poll :: "int option"
  item_dead :: "bool option"
  item_deleted :: "bool option"

record HNUser =
  user_id :: string
  user_created :: int
  user_karma :: int
  user_about :: "string option"
  user_submitted :: "int list option"

record AlgoliaHit =
  hit_objectID :: string
  hit_title :: "string option"
  hit_url :: "string option"
  hit_author :: string
  hit_points :: "int option"
  hit_num_comments :: "int option"
  hit_created_at :: string
  hit_story_text :: "string option"
  hit_comment_text :: "string option"
  hit_story_id :: "int option"
  hit_parent_id :: "int option"
  hit_tags :: "string list option"

record AlgoliaSearchResult =
  result_hits :: "AlgoliaHit list"
  result_nbHits :: int
  result_page :: int
  result_nbPages :: int
  result_hitsPerPage :: int

text \<open>
  The object literal that \<^verbatim>\<open>getCommentTree\<close> returns: the five properties \<^verbatim>\<open>id\<close>,
  \<^verbatim>\<open>by\<close>, \<^verbatim>\<open>text\<close>, \<^verbatim>\<open>time\<close>, \<^verbatim>\<open>children\<close>. \<^verbatim>\<open>time\<close> is \<^verbatim>\<open>item.time\<close> as it is,
  so it may be \<^verbatim>\<open>undefined\<close>.
\<close>

datatype node = Node (node_id: int) (node_by: string) (node_text: string)
  (node_time: "int option") (node_children: "node list")

datatype kind = topstories | newstories | beststories | askstories | showstories | jobstories

fun kind_name :: "kind \<Rightarrow> string" where
  "kind_name topstories = ''topstories''"
| "kind_name newstories = ''newstories''"
| "kind_name beststories = ''beststories''"
| "kind_name askstories = ''askstories''"
| "kind_name showstories = ''showstories''"
| "kind_name jobstories = ''jobstories''"

section \<open>The remote system and asynchronous calls\<close>

text \<open>
  What the platform's \<^verbatim>\<open>fetch\<close> followed by \<^verbatim>\<open>res.json()\<close> can give for one URL:
  the request is rejected (no response at all), or there is a response with its \<^verbatim>\<open>ok\<close>
  flag and a body, and the body is not JSON, is the JSON value \<^verbatim>\<open>null\<close>, or is a
  JSON value. \<^verbatim>\<open>fetchJson\<close> casts the value to the caller's type without a check
  (\<^verbatim>\<open>data as T\<close>); the model trusts the cast as the TypeScript types do, so the body
  is already a value of that type.
\<close>

datatype 'a body = NotJson | JsonNull | JsonValue 'a

datatype 'a fetched = Rejected | Response bool "'a body"

text \<open>
  The remote system during one call: the single global \<^verbatim>\<open>fetch\<close>, seen at each of
  the four types the client casts to. It answers a URL the same way every time it is
  asked during the call.
\<close>

record world =
  fetch_item :: "string \<Rightarrow> HNItem fetched"
  fetch_user :: "string \<Rightarrow> HNUser fetched"
  fetch_ids :: "string \<Rightarrow> int list fetched"
  fetch_search :: "string \<Rightarrow> AlgoliaSearchResult fetched"

datatype error = FetchRejected | JsonSyntaxError

text \<open>
  A settled \<^verbatim>\<open>Promise<T>\<close>: the value it resolves to (\<open>Inr\<close>) or the error it rejects
  with (\<open>Inl\<close>), together with the bag of URLs that were requested while it ran.
  The bag has no order: sibling calls under \<^verbatim>\<open>Promise.all\<close> run interleaved.
\<close>

type_synonym 'a promise = "(error + 'a) \<times> string multiset"

text \<open>
  \<^verbatim>\<open>Promise.all\<close>: every promise of the list runs to its end, so all their requests
  are issued; the result is the list of values, in the order of the list, or a
  rejection when one of them rejects. The platform reports the rejection that happens
  first in time; the model reports the left-most one.
\<close>

fun all_values :: "(error + 'a) list \<Rightarrow> error + 'a list" where
  "all_values [] = Inr []"
| "all_values (Inl e # rs) = Inl e"
| "all_values (Inr v # rs) = (case all_values rs of Inl e \<Rightarrow> Inl e | Inr vs \<Rightarrow> Inr (v # vs))"

definition Promise_all :: "'a promise list \<Rightarrow> 'a list promise" where
  "Promise_all ps = (all_values (map fst ps), sum_list (map snd ps))"

section \<open>Strings of numbers\<close>

text \<open>
  \<^verbatim>\<open>String(n)\<close> and \<^verbatim>\<open>`${n}`\<close> for an integer: its decimal digits, after a minus
  sign when it is negative. \<open>digit\<close> is only applied to numbers below ten.
\<close>

definition digit :: "nat \<Rightarrow> char" where
  "digit d = ''0123456789'' ! d"

fun digits :: "nat \<Rightarrow> string" where
  "digits n = (if n < 10 then [digit n] else digits (n div 10) @ [digit (n mod 10)])"

declare digits.simps [simp del]

definition String_number :: "int \<Rightarrow> string" where
  "String_number n = (if n < 0 then CHR ''-'' # digits (nat (- n)) else digits (nat n))"

section \<open>The API client\<close>

definition HN_BASE :: string where
  "HN_BASE = ''https://hacker-news.firebaseio.com/v0''"

definition ALGOLIA_BASE :: string where
  "ALGOLIA_BASE = ''https://hn.algolia.com/api/v1''"

text \<open>
  \<^verbatim>\<open>fetchJson\<close>: one request. A response that is not ok gives \<^verbatim>\<open>null\<close> before the
  body is read; otherwise \<^verbatim>\<open>res.json()\<close> is awaited, and its rejection is not caught.
\<close>

definition fetchJson :: "(string \<Rightarrow> 'a fetched) \<Rightarrow> string \<Rightarrow> 'a option promise" where
  "fetchJson fetch url =
     (case fetch url of
        Rejected \<Rightarrow> (Inl FetchRejected, {#url#})
      | Response ok data \<Rightarrow>
          if \<not> ok then (Inr None, {#url#})
          else (case data of
                  NotJson \<Rightarrow> (Inl JsonSyntaxError, {#url#})
                | JsonNull \<Rightarrow> (Inr None, {#url#})
                | JsonValue v \<Rightarrow> (Inr (Some v), {#url#})))"

definition item_request :: "int \<Rightarrow> string" where
  "item_request id' = HN_BASE @ ''/item/'' @ String_number id' @ ''.json''"

definition getItem :: "world \<Rightarrow> int \<Rightarrow> HNItem option promise" where
  "getItem w id' = fetchJson (fetch_item w) (item_request id')"

definition getUser :: "world \<Rightarrow> string \<Rightarrow> HNUser option promise" where
  "getUser w username = fetchJson (fetch_user w) (HN_BASE @ ''/user/'' @ username @ ''.json'')"

definition getStoryIds :: "world \<Rightarrow> kind \<Rightarrow> int list promise" where
  "getStoryIds w kind =
     (case fetchJson (fetch_ids w) (HN_BASE @ ''/'' @ kind_name kind @ ''.json'') of
        (Inl e, t) \<Rightarrow> (Inl e, t)
      | (Inr ids, t) \<Rightarrow> (Inr (case ids of None \<Rightarrow> [] | Some xs \<Rightarrow> xs), t))"

text \<open>
  \<^verbatim>\<open>Array.prototype.slice(start, end)\<close> on integers: a negative index counts from the
  end, and both are clipped to the array.
\<close>

definition slice :: "'a list \<Rightarrow> int \<Rightarrow> int \<Rightarrow> 'a list" where
  "slice xs start end =
     (let len = int (length xs);
          k = (if start < 0 then max (len + start) 0 else min start len);
          final = (if end < 0 then max (len + end) 0 else min end len);
          count = max (final - k) 0
      in take (nat count) (drop (nat k) xs))"

text \<open>\<^verbatim>\<open>items.filter((i) => i !== null)\<close>, with the type guard narrowing the elements.\<close>

fun filter_not_null :: "'a option list \<Rightarrow> 'a list" where
  "filter_not_null [] = []"
| "filter_not_null (None # is) = filter_not_null is"
| "filter_not_null (Some i # is) = i # filter_not_null is"

record stories =
  stories_items :: "HNItem list"
  stories_total :: int

definition getStories :: "world \<Rightarrow> kind \<Rightarrow> int \<Rightarrow> int \<Rightarrow> stories promise" where
  "getStories w kind limit offset =
     (case getStoryIds w kind of
        (Inl e, t) \<Rightarrow> (Inl e, t)
      | (Inr allIds, t) \<Rightarrow>
          (let pageIds = slice allIds offset (offset + limit)
           in case Promise_all (map (\<lambda>id'. getItem w id') pageIds) of
                (Inl e, t') \<Rightarrow> (Inl e, t + t')
              | (Inr items, t') \<Rightarrow>
                  (Inr \<lparr>stories_items = filter_not_null items,
                        stories_total = int (length allIds)\<rparr>, t + t')))"

text \<open>
  The loop \<^verbatim>\<open>for (const child of childResults) if (child) children.push(child)\<close>,
  with the array \<^verbatim>\<open>children\<close> as the accumulator.
\<close>

fun push_children :: "node list \<Rightarrow> node option list \<Rightarrow> node list" where
  "push_children children [] = children"
| "push_children children (child # childResults) =
     push_children (case child of None \<Rightarrow> children | Some c \<Rightarrow> children @ [c]) childResults"

function getCommentTree :: "world \<Rightarrow> int \<Rightarrow> int \<Rightarrow> int \<Rightarrow> node option promise" where
  "getCommentTree w itemId maxDepth currentDepth =
     (if currentDepth > maxDepth then (Inr None, {#})
      else case getItem w itemId of
        (Inl e, t) \<Rightarrow> (Inl e, t)
      | (Inr None, t) \<Rightarrow> (Inr None, t)
      | (Inr (Some item), t) \<Rightarrow>
          (case (case item_kids item of
                   None \<Rightarrow> (Inr [], {#})
                 | Some kids \<Rightarrow>
                     if currentDepth < maxDepth then
                       (case Promise_all
                               (map (\<lambda>kid. getCommentTree w kid maxDepth (currentDepth + 1)) kids) of
                          (Inl e, t') \<Rightarrow> (Inl e, t')
                        | (Inr childResults, t') \<Rightarrow> (Inr (push_children [] childResults), t'))
                     else (Inr [], {#})) of
             (Inl e, t') \<Rightarrow> (Inl e, t + t')
           | (Inr children, t') \<Rightarrow>
               (Inr (Some (Node (item_id item)
                             (case item_by item of None \<Rightarrow> ''[deleted]'' | Some b \<Rightarrow> b)
                             (case item_text item of None \<Rightarrow> [] | Some x \<Rightarrow> x)
                             (item_time item)
                             children)), t + t')))"
  by pat_completeness auto
termination
  by (relation "measure (\<lambda>(w, itemId, maxDepth, currentDepth). nat (maxDepth - currentDepth))") auto

declare getCommentTree.simps [simp del]

section \<open>Search\<close>

text \<open>
  \<^verbatim>\<open>URLSearchParams\<close> is a list of name and value pairs. \<^verbatim>\<open>set(name, value)\<close> gives the
  first pair of that name the value and removes the other pairs of that name, or
  appends the pair when there is none.
\<close>

type_synonym params = "(string \<times> string) list"

fun set_first :: "params \<Rightarrow> string \<Rightarrow> string \<Rightarrow> params" where
  "set_first [] name v = []"
| "set_first ((k, x) # ps) name v =
     (if k = name then (name, v) # filter (\<lambda>p. fst p \<noteq> name) ps
      else (k, x) # set_first ps name v)"

definition params_set :: "params \<Rightarrow> string \<Rightarrow> string \<Rightarrow> params" where
  "params_set ps name v =
     (if name \<in> set (map fst ps) then set_first ps name v else ps @ [(name, v)])"

record search_opts =
  opts_tags :: "string option"
  opts_page :: "int option"
  opts_hitsPerPage :: "int option"
  opts_numericFilters :: "string option"

text \<open>The condition \<^verbatim>\<open>if (s)\<close> on an optional string: \<^verbatim>\<open>undefined\<close> and \<^verbatim>\<open>""\<close> are falsy.\<close>

fun truthy :: "string option \<Rightarrow> bool" where
  "truthy None = False"
| "truthy (Some s) = (s \<noteq> [])"

text \<open>The parameters that \<^verbatim>\<open>searchHN\<close> builds, statement by statement.\<close>

definition searchHN_params :: "string \<Rightarrow> search_opts \<Rightarrow> params" where
  "searchHN_params query opts =
     (let params = [(''query'', query)];
          params = (if truthy (opts_tags opts)
                    then params_set params ''tags'' (the (opts_tags opts)) else params);
          params = (if opts_page opts \<noteq> None
                    then params_set params ''page'' (String_number (the (opts_page opts)))
                    else params);
          params = (if opts_hitsPerPage opts \<noteq> None
                    then params_set params ''hitsPerPage''
                           (String_number (the (opts_hitsPerPage opts)))
                    else params);
          params = (if truthy (opts_numericFilters opts)
                    then params_set params ''numericFilters'' (the (opts_numericFilters opts))
                    else params)
      in params)"

text \<open>
  The request itself. \<open>toString\<close> is the platform's \<^verbatim>\<open>URLSearchParams.toString\<close>
  (the form encoding of the pairs), taken as a parameter.
\<close>

definition searchHN ::
  "(params \<Rightarrow> string) \<Rightarrow> world \<Rightarrow> string \<Rightarrow> search_opts \<Rightarrow> AlgoliaSearchResult option promise"
where
  "searchHN toString w query opts =
     fetchJson (fetch_search w) (ALGOLIA_BASE @ ''/search?'' @ toString (searchHN_params query opts))"

section \<open>The tool handlers\<close>









section \<open>Sample data\<close>

text \<open>
  A small remote system for the concrete instances below: item 1 has the children 2
  and 3, item 5 has the child 6, the items 3, 11 and 12 have none, and every other
  item request is answered with a status that is not ok. Each category lists the ids
  10 to 14.
\<close>

definition comment_item :: "int \<Rightarrow> int list option \<Rightarrow> HNItem" where
  "comment_item n kids =
     \<lparr>item_id = n, item_type = Some Comment, item_by = None, item_time = Some 1700000000,
      item_text = Some ''hello'', item_url = None, item_title = None, item_score = None,
      item_descendants = None, item_kids = kids, item_parent = None, item_parts = None,
      item_poll = None, item_dead = None, item_deleted = None\<rparr>"

definition sample_world :: world where
  "sample_world =
     \<lparr>fetch_item = (\<lambda>url.
        if url = item_request 1 then Response True (JsonValue (comment_item 1 (Some [2, 3])))
        else if url = item_request 3 then Response True (JsonValue (comment_item 3 None))
        else if url = item_request 5 then Response True (JsonValue (comment_item 5 (Some [6])))
        else if url = item_request 11 then Response True (JsonValue (comment_item 11 None))
        else if url = item_request 12 then Response True (JsonValue (comment_item 12 None))
        else Response False NotJson),
      fetch_user = (\<lambda>url. Response False NotJson),
      fetch_ids = (\<lambda>url. Response True (JsonValue [10, 11, 12, 13, 14])),
      fetch_search = (\<lambda>url. Response False NotJson)\<rparr>"

text \<open>The number of levels below a node, to measure how deep a returned tree is.\<close>

fun height :: "node \<Rightarrow> nat" where
  "height (Node i b t tm cs) = Max (set (0 # map (\<lambda>c. Suc (height c)) cs))"

section \<open>Auxiliary facts\<close>

lemmas sample_defs = sample_world_def comment_item_def getItem_def fetchJson_def item_request_def
  String_number_def digits.simps digit_def HN_BASE_def Promise_all_def getStoryIds_def

lemma push_children_append: "push_children acc rs = acc @ filter_not_null rs"
  by (induction rs arbitrary: acc) (auto split: option.splits)

lemma all_values_Inr_D: "all_values rs = Inr vs \<Longrightarrow> rs = map Inr vs"
  by (induction rs arbitrary: vs rule: all_values.induct) (auto split: sum.splits)

lemma filter_not_null_Nil: "filter_not_null xs = [] \<longleftrightarrow> (\<forall>x \<in> set xs. x = None)"
  by (induction xs rule: filter_not_null.induct) auto

lemma length_filter_not_null: "length (filter_not_null xs) \<le> length xs"
  by (induction xs rule: filter_not_null.induct) auto

lemma in_filter_not_null: "c \<in> set (filter_not_null xs) \<longleftrightarrow> Some c \<in> set xs"
  by (induction xs rule: filter_not_null.induct) auto

lemma filter_map_Inr_Some:
  "filter (\<lambda>r. r \<noteq> Inr None) (map Inr rs) = map (Inr \<circ> Some) (filter_not_null rs)"
  by (induction rs rule: filter_not_null.induct) auto

text \<open>The results that are present, kept in the order of the inputs.\<close>

lemma present_results:
  "map f xs = map Inr rs \<Longrightarrow>
     map f (filter (\<lambda>x. f x \<noteq> Inr None) xs) = map (Inr \<circ> Some) (filter_not_null rs)"
proof (induction xs arbitrary: rs)
  case Nil
  then show ?case by simp
next
  case (Cons x xs)
  then obtain r rs' where rs: "rs = r # rs'" by (cases rs) auto
  with Cons.prems have "f x = Inr r" and "map f xs = map Inr rs'" by auto
  with Cons.IH [of rs'] rs show ?case by (cases r) auto
qed

subsection \<open>Slices\<close>

lemma length_slice_total:
  "int (length (slice xs start end)) \<le> max 0 (int (length xs) - start)"
  by (auto simp: slice_def Let_def)

lemma length_slice_limit:
  "0 \<le> limit \<Longrightarrow> int (length (slice xs offset (offset + limit))) \<le> limit"
  by (auto simp: slice_def Let_def)

lemma slice_beyond: "int (length xs) \<le> start \<Longrightarrow> slice xs start end = []"
  by (auto simp: slice_def Let_def)

lemma subseq_slice: "subseq (slice xs start end) xs"
proof -
  have "sublist (slice xs start end) xs"
    unfolding slice_def Let_def by (meson sublist_take sublist_drop sublist_order.order_trans)
  then show ?thesis by (rule sublist_imp_subseq)
qed

subsection \<open>Values without the requests\<close>

text \<open>The value of \<^verbatim>\<open>getCommentTree\<close> without its requests, one level unfolded.\<close>

lemma getCommentTree_fst:
  "fst (getCommentTree w itemId maxDepth currentDepth) =
     (if currentDepth > maxDepth then Inr None
      else case fst (getItem w itemId) of
        Inl e \<Rightarrow> Inl e
      | Inr None \<Rightarrow> Inr None
      | Inr (Some item) \<Rightarrow>
          (case (case item_kids item of
                   None \<Rightarrow> Inr []
                 | Some kids \<Rightarrow>
                     if currentDepth < maxDepth then
                       (case all_values
                               (map (\<lambda>kid. fst (getCommentTree w kid maxDepth (currentDepth + 1)))
                                  kids) of
                          Inl e \<Rightarrow> Inl e
                        | Inr childResults \<Rightarrow> Inr (filter_not_null childResults))
                     else Inr []) of
             Inl e \<Rightarrow> Inl e
           | Inr children \<Rightarrow>
               Inr (Some (Node (item_id item)
                            (case item_by item of None \<Rightarrow> ''[deleted]'' | Some b \<Rightarrow> b)
                            (case item_text item of None \<Rightarrow> [] | Some x \<Rightarrow> x)
                            (item_time item) children))))"
  apply (subst getCommentTree.simps)
  apply (simp add: Promise_all_def push_children_append comp_def
       split: prod.splits sum.splits option.splits)
  done

lemma getStories_fst:
  "fst (getStories w kind limit offset) =
     (case fst (getStoryIds w kind) of
        Inl e \<Rightarrow> Inl e
      | Inr allIds \<Rightarrow>
          (case all_values (map (\<lambda>i. fst (getItem w i)) (slice allIds offset (offset + limit))) of
             Inl e \<Rightarrow> Inl e
           | Inr items \<Rightarrow>
               Inr \<lparr>stories_items = filter_not_null items,
                    stories_total = int (length allIds)\<rparr>))"
  by (simp add: getStories_def Promise_all_def Let_def comp_def
        split: prod.splits sum.splits)

subsection \<open>The recursion of the comment tree\<close>

lemma getCommentTree_rel_step:
  "getCommentTree_rel (w', kid, maxDepth', currentDepth') (w, itemId, maxDepth, currentDepth) \<Longrightarrow>
     w' = w \<and> maxDepth' = maxDepth \<and> currentDepth' = currentDepth + 1 \<and> currentDepth < maxDepth"
  by (auto elim: getCommentTree_rel.cases)

text \<open>
  Every argument tuple is accessible for the call relation, by induction on
  \<open>maxDepth - currentDepth\<close>: a call is made only while that difference is positive,
  and the callee's difference is smaller by one.
\<close>

lemma getCommentTree_accessible: "getCommentTree_dom (w, itemId, maxDepth, currentDepth)"
proof (induction "nat (maxDepth - currentDepth)" arbitrary: itemId currentDepth rule: less_induct)
  case less
  show ?case
  proof (rule accpI)
    fix y
    assume r: "getCommentTree_rel y (w, itemId, maxDepth, currentDepth)"
    obtain w' kid md' cd' where y: "y = (w', kid, md', cd')"
      by (cases y) auto
    from r y have "w' = w \<and> md' = maxDepth \<and> cd' = currentDepth + 1 \<and> currentDepth < maxDepth"
      using getCommentTree_rel_step by blast
    then show "getCommentTree_dom y"
      using less [of "currentDepth + 1" kid] y by simp
  qed
qed

lemma height_le: "height (Node i b t tm cs) \<le> k \<longleftrightarrow> (\<forall>c \<in> set cs. Suc (height c) \<le> k)"
  by (auto simp: Max_le_iff)

lemma getCommentTree_height:
  "fst (getCommentTree w itemId maxDepth currentDepth) = Inr (Some n) \<Longrightarrow>
     int (height n) \<le> maxDepth - currentDepth"
proof (induction w itemId maxDepth currentDepth arbitrary: n rule: getCommentTree.induct)
  case (1 w itemId maxDepth currentDepth)
  from "1.prems" have le: "\<not> maxDepth < currentDepth"
    by (auto simp: getCommentTree_fst split: if_splits)
  from "1.prems" le obtain item where item: "fst (getItem w itemId) = Inr (Some item)"
    by (auto simp: getCommentTree_fst split: if_splits sum.splits option.splits)
  show ?case
  proof (cases "\<exists>kids. item_kids item = Some kids \<and> currentDepth < maxDepth")
    case False
    with "1.prems" le item have "node_children n = []"
      by (auto simp: getCommentTree_fst split: if_splits sum.splits option.splits)
    then show ?thesis using le by (cases n) simp
  next
    case True
    then obtain kids where kids: "item_kids item = Some kids" and lt: "currentDepth < maxDepth"
      by blast
    from "1.prems" le item kids lt obtain childResults where
      cr: "all_values (map (\<lambda>kid. fst (getCommentTree w kid maxDepth (currentDepth + 1))) kids)
             = Inr childResults"
      and ch: "node_children n = filter_not_null childResults"
      by (auto simp: getCommentTree_fst split: if_splits sum.splits option.splits)
    have m: "map (\<lambda>kid. fst (getCommentTree w kid maxDepth (currentDepth + 1))) kids
               = map Inr childResults"
      using cr by (rule all_values_Inr_D)
    have "Suc (height c) \<le> nat (maxDepth - currentDepth)" if c: "c \<in> set (node_children n)" for c
    proof -
      from c ch have "Some c \<in> set childResults" by (simp add: in_filter_not_null)
      then have "Inr (Some c) \<in>
          set (map (\<lambda>kid. fst (getCommentTree w kid maxDepth (currentDepth + 1))) kids)"
        unfolding m by auto
      then obtain kid where k: "kid \<in> set kids"
        and r: "fst (getCommentTree w kid maxDepth (currentDepth + 1)) = Inr (Some c)"
        by auto
      have g: "(Inr (Some item), snd (getItem w itemId)) = getItem w itemId"
        using item by (metis prod.collapse)
      have "int (height c) \<le> maxDepth - (currentDepth + 1)"
        by (rule "1.IH" [OF le g refl refl kids lt k r])
      then show ?thesis using lt by simp
    qed
    then have "height n \<le> nat (maxDepth - currentDepth)"
      by (cases n) (simp add: height_le del: height.simps)
    then show ?thesis using le by simp
  qed
qed

subsection \<open>The tool handlers and their calls\<close>




subsection \<open>The search parameters\<close>

lemma truthy_case:
  "(case x of None \<Rightarrow> None | Some t \<Rightarrow> if t = [] then None else Some t) =
     (if truthy x then Some (the x) else None)"
  by (cases x) auto

lemma map_option_the: "map_option f x = (if x \<noteq> None then Some (f (the x)) else None)"
  by (cases x) auto

lemma searchHN_params_eq:
  "searchHN_params query opts =
     [(''query'', query)] @
     (if truthy (opts_tags opts) then [(''tags'', the (opts_tags opts))] else []) @
     (if opts_page opts \<noteq> None then [(''page'', String_number (the (opts_page opts)))] else []) @
     (if opts_hitsPerPage opts \<noteq> None
      then [(''hitsPerPage'', String_number (the (opts_hitsPerPage opts)))] else []) @
     (if truthy (opts_numericFilters opts)
      then [(''numericFilters'', the (opts_numericFilters opts))] else [])"
  by (simp add: searchHN_params_def params_set_def)

section \<open>The comment tree\<close>

text \<open>
  Claim C1. \<^verbatim>\<open>getCommentTree(rootId, maxDepth, currentDepth)\<close> resolves to \<^verbatim>\<open>null\<close>
  if and only if \<open>currentDepth > maxDepth\<close> or \<^verbatim>\<open>getItem\<close> of the root resolves to
  \<^verbatim>\<open>null\<close>; and when \<open>currentDepth > maxDepth\<close> it does so with no request issued.
\<close>

theorem getCommentTree_absent:
  "(fst (getCommentTree w rootId maxDepth currentDepth) = Inr None \<longleftrightarrow>
      currentDepth > maxDepth \<or> fst (getItem w rootId) = Inr None) \<and>
   (currentDepth > maxDepth \<longrightarrow> getCommentTree w rootId maxDepth currentDepth = (Inr None, {#}))"
proof
  show "fst (getCommentTree w rootId maxDepth currentDepth) = Inr None \<longleftrightarrow>
      currentDepth > maxDepth \<or> fst (getItem w rootId) = Inr None"
    by (simp add: getCommentTree_fst split: sum.splits option.splits)
  show "currentDepth > maxDepth \<longrightarrow> getCommentTree w rootId maxDepth currentDepth = (Inr None, {#})"
    by (subst getCommentTree.simps) simp
qed

theorem getCommentTree_absent_witness:
  "getCommentTree sample_world 1 1 2 = (Inr None, {#}) \<and>
   fst (getCommentTree sample_world 2 1 0) = Inr None \<and>
   fst (getCommentTree sample_world 3 1 0) \<noteq> Inr None"
proof -
  have a: "fst (getItem sample_world 2) = Inr None"
    by (simp add: sample_defs)
  have b: "fst (getItem sample_world 3) \<noteq> Inr None"
    by (simp add: sample_defs)
  show ?thesis
    using getCommentTree_absent [of sample_world 1 1 2]
      getCommentTree_absent [of sample_world 2 1 0]
      getCommentTree_absent [of sample_world 3 1 0] a b
    by simp
qed

text \<open>
  Claim C2. When the root item has child ids \<open>kids\<close>, \<open>maxDepth \<ge> 1\<close> and the call at
  \<open>currentDepth = 0\<close> resolves to a node, the children of the node are exactly the
  results of the recursive calls on \<open>kids\<close>, in the order of \<open>kids\<close>, with the results
  that are \<^verbatim>\<open>null\<close> left out.
\<close>

theorem getCommentTree_children_order:
  assumes "fst (getItem w rootId) = Inr (Some item)"
    and "item_kids item = Some kids"
    and "1 \<le> maxDepth"
    and "fst (getCommentTree w rootId maxDepth 0) = Inr (Some n)"
  shows "map (Inr \<circ> Some) (node_children n) =
           filter (\<lambda>r. r \<noteq> Inr None) (map (\<lambda>kid. fst (getCommentTree w kid maxDepth 1)) kids)"
proof -
  from assms obtain childResults where
    cr: "all_values (map (\<lambda>kid. fst (getCommentTree w kid maxDepth 1)) kids) = Inr childResults"
    and ch: "node_children n = filter_not_null childResults"
    by (auto simp: getCommentTree_fst split: if_splits sum.splits)
  have "map (\<lambda>kid. fst (getCommentTree w kid maxDepth 1)) kids = map Inr childResults"
    using cr by (rule all_values_Inr_D)
  then show ?thesis
    by (simp add: ch filter_map_Inr_Some)
qed

theorem getCommentTree_children_order_witness:
  "fst (getCommentTree sample_world 1 1 0) =
     Inr (Some (Node 1 ''[deleted]'' ''hello'' (Some 1700000000)
                  [Node 3 ''[deleted]'' ''hello'' (Some 1700000000) []])) \<and>
   map (Inr \<circ> Some) [Node 3 ''[deleted]'' ''hello'' (Some 1700000000) []] =
     filter (\<lambda>r. r \<noteq> Inr None) (map (\<lambda>kid. fst (getCommentTree sample_world kid 1 1)) [2, 3])"
proof -
  have i: "fst (getItem sample_world 1) = Inr (Some (comment_item 1 (Some [2, 3])))"
    by (simp add: sample_defs)
  have k: "item_kids (comment_item 1 (Some [2, 3])) = Some [2, 3]"
    by (simp add: comment_item_def)
  have r: "fst (getCommentTree sample_world 1 1 0) =
     Inr (Some (Node 1 ''[deleted]'' ''hello'' (Some 1700000000)
                  [Node 3 ''[deleted]'' ''hello'' (Some 1700000000) []]))"
    by (simp add: getCommentTree.simps sample_defs)
  show ?thesis
    using getCommentTree_children_order [OF i k _ r] r by simp
qed

text \<open>
  Claim C3, as stated, fails: item 5 has the child id 6 and the call has depth budget
  left (\<open>0 < 1\<close>), yet the node has no children, since the only child resolves to
  \<^verbatim>\<open>null\<close>.
\<close>

theorem getCommentTree_leaf_counterexample:
  "fst (getItem sample_world 5) = Inr (Some (comment_item 5 (Some [6]))) \<and>
   fst (getCommentTree sample_world 5 1 0) =
     Inr (Some (Node 5 ''[deleted]'' ''hello'' (Some 1700000000) [])) \<and>
   \<not> (node_children (Node 5 ''[deleted]'' ''hello'' (Some 1700000000) []) = [] \<longleftrightarrow>
        item_kids (comment_item 5 (Some [6])) = None \<or>
        item_kids (comment_item 5 (Some [6])) = Some [] \<or>
        \<not> (0 :: int) < 1)"
  by (simp add: getCommentTree.simps sample_defs)

text \<open>
  Claim C3, amended. A node that \<^verbatim>\<open>getCommentTree\<close> returns has an empty child
  sequence exactly when the item has no child ids (none, or an empty list), or
  \<open>currentDepth < maxDepth\<close> fails, or every child resolves to \<^verbatim>\<open>null\<close>. And when the
  item has no child ids, or the depth is not exceeded and \<open>currentDepth < maxDepth\<close>
  fails (as for \<open>maxDepth = 0\<close> at the root), the call does return a node, with an
  empty child sequence.
\<close>

theorem getCommentTree_children_empty:
  assumes "fst (getItem w itemId) = Inr (Some item)"
  shows "(fst (getCommentTree w itemId maxDepth currentDepth) = Inr (Some n) \<longrightarrow>
           (node_children n = [] \<longleftrightarrow>
              item_kids item = None \<or> item_kids item = Some [] \<or> \<not> currentDepth < maxDepth \<or>
              (\<exists>kids. item_kids item = Some kids \<and>
                 (\<forall>kid \<in> set kids.
                    fst (getCommentTree w kid maxDepth (currentDepth + 1)) = Inr None)))) \<and>
         (currentDepth \<le> maxDepth \<and>
            (item_kids item = None \<or> item_kids item = Some [] \<or> \<not> currentDepth < maxDepth) \<longrightarrow>
            (\<exists>n. fst (getCommentTree w itemId maxDepth currentDepth) = Inr (Some n) \<and>
                 node_children n = []))"
proof (intro conjI impI)
  assume r: "fst (getCommentTree w itemId maxDepth currentDepth) = Inr (Some n)"
  show "node_children n = [] \<longleftrightarrow>
          item_kids item = None \<or> item_kids item = Some [] \<or> \<not> currentDepth < maxDepth \<or>
          (\<exists>kids. item_kids item = Some kids \<and>
             (\<forall>kid \<in> set kids. fst (getCommentTree w kid maxDepth (currentDepth + 1)) = Inr None))"
  proof (cases "\<exists>kids. item_kids item = Some kids \<and> currentDepth < maxDepth")
    case False
    with r assms have "node_children n = []"
      by (auto simp: getCommentTree_fst split: if_splits sum.splits option.splits)
    with False show ?thesis by (cases "item_kids item") auto
  next
    case True
    then obtain kids where kids: "item_kids item = Some kids" and lt: "currentDepth < maxDepth"
      by blast
    from r assms kids lt obtain childResults where
      cr: "all_values (map (\<lambda>kid. fst (getCommentTree w kid maxDepth (currentDepth + 1))) kids)
             = Inr childResults"
      and ch: "node_children n = filter_not_null childResults"
      by (auto simp: getCommentTree_fst split: if_splits sum.splits option.splits)
    have m: "map (\<lambda>kid. fst (getCommentTree w kid maxDepth (currentDepth + 1))) kids
               = map Inr childResults"
      using cr by (rule all_values_Inr_D)
    have e: "node_children n = [] \<longleftrightarrow> (\<forall>x \<in> set (map Inr childResults). x = Inr None)"
      by (auto simp: ch filter_not_null_Nil)
    have "node_children n = [] \<longleftrightarrow>
        (\<forall>x \<in> set (map (\<lambda>kid. fst (getCommentTree w kid maxDepth (currentDepth + 1))) kids).
            x = Inr None)"
      using e by (simp only: m)
    then show ?thesis using kids lt by auto
  qed
next
  assume a: "currentDepth \<le> maxDepth \<and>
    (item_kids item = None \<or> item_kids item = Some [] \<or> \<not> currentDepth < maxDepth)"
  then show "\<exists>n. fst (getCommentTree w itemId maxDepth currentDepth) = Inr (Some n) \<and>
                 node_children n = []"
    using assms by (auto simp: getCommentTree_fst split: option.splits)
qed

theorem getCommentTree_children_empty_witness:
  "(\<exists>n. fst (getCommentTree sample_world 3 2 0) = Inr (Some n) \<and> node_children n = []) \<and>
   (\<exists>n. fst (getCommentTree sample_world 1 0 0) = Inr (Some n) \<and> node_children n = []) \<and>
   node_children (Node 5 ''[deleted]'' ''hello'' (Some 1700000000) []) = [] \<and>
   fst (getCommentTree sample_world 6 1 (0 + 1)) = Inr None"
proof -
  have i3: "fst (getItem sample_world 3) = Inr (Some (comment_item 3 None))"
    by (simp add: sample_defs)
  have i1: "fst (getItem sample_world 1) = Inr (Some (comment_item 1 (Some [2, 3])))"
    by (simp add: sample_defs)
  have i5: "fst (getItem sample_world 5) = Inr (Some (comment_item 5 (Some [6])))"
    by (simp add: sample_defs)
  have r5: "fst (getCommentTree sample_world 5 1 0) =
     Inr (Some (Node 5 ''[deleted]'' ''hello'' (Some 1700000000) []))"
    by (simp add: getCommentTree.simps sample_defs)
  have k3: "item_kids (comment_item 3 None) = None"
    and k5: "item_kids (comment_item 5 (Some [6])) = Some [6]"
    by (simp_all add: comment_item_def)
  show ?thesis
    using getCommentTree_children_empty [OF i3, of 2 0]
      getCommentTree_children_empty [OF i1, of 0 0]
      getCommentTree_children_empty
        [OF i5, of 1 0 "Node 5 ''[deleted]'' ''hello'' (Some 1700000000) []"]
      r5 k3 k5
    by simp
qed

text \<open>
  Claim C4. A node that \<^verbatim>\<open>getCommentTree\<close> returns is built from the item that
  \<^verbatim>\<open>getItem\<close> resolved to: \<^verbatim>\<open>id\<close> and \<^verbatim>\<open>time\<close> are the item's, \<^verbatim>\<open>by\<close> is the
  item's author or \<^verbatim>\<open>"[deleted]"\<close> when there is none, \<^verbatim>\<open>text\<close> is the item's text or
  the empty string when there is none. (That the node has these four fields and
  \<^verbatim>\<open>children\<close>, and no other, is the type \<^typ>\<open>node\<close>.)
\<close>

theorem getCommentTree_node_fields:
  assumes "fst (getCommentTree w itemId maxDepth currentDepth) = Inr (Some n)"
  shows "\<exists>item. fst (getItem w itemId) = Inr (Some item) \<and>
           node_id n = item_id item \<and>
           node_time n = item_time item \<and>
           node_by n = (case item_by item of None \<Rightarrow> ''[deleted]'' | Some author \<Rightarrow> author) \<and>
           node_text n = (case item_text item of None \<Rightarrow> '''' | Some body \<Rightarrow> body)"
  using assms
  by (auto simp: getCommentTree_fst split: if_splits sum.splits option.splits)

theorem getCommentTree_node_fields_witness:
  "\<exists>item. fst (getItem sample_world 3) = Inr (Some item) \<and>
     node_id (Node 3 ''[deleted]'' ''hello'' (Some 1700000000) []) = item_id item \<and>
     node_time (Node 3 ''[deleted]'' ''hello'' (Some 1700000000) []) = item_time item \<and>
     node_by (Node 3 ''[deleted]'' ''hello'' (Some 1700000000) []) =
       (case item_by item of None \<Rightarrow> ''[deleted]'' | Some author \<Rightarrow> author) \<and>
     node_text (Node 3 ''[deleted]'' ''hello'' (Some 1700000000) []) =
       (case item_text item of None \<Rightarrow> '''' | Some body \<Rightarrow> body)"
proof -
  have r: "fst (getCommentTree sample_world 3 1 0) =
     Inr (Some (Node 3 ''[deleted]'' ''hello'' (Some 1700000000) []))"
    by (simp add: getCommentTree.simps sample_defs)
  show ?thesis
    by (rule getCommentTree_node_fields [OF r])
qed

text \<open>
  Claim C9. \<^verbatim>\<open>getCommentTree\<close> terminates on every input: every argument tuple is in
  the domain of the recursion. Each recursive call, as the call relation of the
  definition records it, keeps the remote system and \<open>maxDepth\<close>, increases
  \<open>currentDepth\<close> by exactly one and is made only under \<open>currentDepth < maxDepth\<close>, so
  it decreases the measure \<open>maxDepth - currentDepth\<close>. Accordingly a returned tree is
  at most \<open>maxDepth - currentDepth\<close> levels deep.
\<close>

theorem getCommentTree_terminates:
  "getCommentTree_dom (w, itemId, maxDepth, currentDepth) \<and>
   (getCommentTree_rel (w', kid, maxDepth', currentDepth') (w, itemId, maxDepth, currentDepth) \<longrightarrow>
      w' = w \<and> maxDepth' = maxDepth \<and> currentDepth' = currentDepth + 1 \<and>
      currentDepth < maxDepth \<and>
      nat (maxDepth' - currentDepth') < nat (maxDepth - currentDepth)) \<and>
   (fst (getCommentTree w itemId maxDepth currentDepth) = Inr (Some n) \<longrightarrow>
      int (height n) \<le> maxDepth - currentDepth)"
proof (intro conjI impI)
  show "getCommentTree_dom (w, itemId, maxDepth, currentDepth)"
    by (rule getCommentTree_accessible)
next
  assume "getCommentTree_rel (w', kid, maxDepth', currentDepth') (w, itemId, maxDepth, currentDepth)"
  then have s: "w' = w \<and> maxDepth' = maxDepth \<and> currentDepth' = currentDepth + 1 \<and>
      currentDepth < maxDepth"
    by (rule getCommentTree_rel_step)
  then show "w' = w" "maxDepth' = maxDepth" "currentDepth' = currentDepth + 1"
    "currentDepth < maxDepth" "nat (maxDepth' - currentDepth') < nat (maxDepth - currentDepth)"
    by simp_all
next
  assume "fst (getCommentTree w itemId maxDepth currentDepth) = Inr (Some n)"
  then show "int (height n) \<le> maxDepth - currentDepth"
    by (rule getCommentTree_height)
qed

theorem getCommentTree_terminates_witness:
  "getCommentTree_dom (sample_world, 1, 1, 0) \<and>
   getCommentTree_rel (sample_world, 3, 1, 0 + 1) (sample_world, 1, 1, 0) \<and>
   nat (1 - (0 + 1)) < nat (1 - (0::int)) \<and>
   fst (getCommentTree sample_world 1 1 0) =
     Inr (Some (Node 1 ''[deleted]'' ''hello'' (Some 1700000000)
                  [Node 3 ''[deleted]'' ''hello'' (Some 1700000000) []])) \<and>
   int (height (Node 1 ''[deleted]'' ''hello'' (Some 1700000000)
                  [Node 3 ''[deleted]'' ''hello'' (Some 1700000000) []])) \<le> 1 - 0"
proof -
  have c: "getCommentTree_rel (sample_world, 3, 1, 0 + 1) (sample_world, 1, 1, 0)"
    by (rule getCommentTree_rel.intros
          [where x = "Inr (Some (comment_item 1 (Some [2, 3])))" and y = "{#item_request 1#}"
             and b = "Some (comment_item 1 (Some [2, 3]))" and ?x2.0 = "comment_item 1 (Some [2, 3])"
             and x2a = "[2, 3]"])
       (simp_all add: sample_defs)
  have r: "fst (getCommentTree sample_world 1 1 0) =
     Inr (Some (Node 1 ''[deleted]'' ''hello'' (Some 1700000000)
                  [Node 3 ''[deleted]'' ''hello'' (Some 1700000000) []]))"
    by (simp add: getCommentTree.simps sample_defs)
  show ?thesis
    using c r
      getCommentTree_terminates [of sample_world 1 1 0 sample_world 3 1 "0 + 1"
        "Node 1 ''[deleted]'' ''hello'' (Some 1700000000)
           [Node 3 ''[deleted]'' ''hello'' (Some 1700000000) []]"]
    by simp
qed

section \<open>The paginated listing\<close>

text \<open>
  Claim C5. A limit is a number of items: the tool layer, the only caller of
  \<^verbatim>\<open>getStories\<close>, passes one in \<open>[1, 50]\<close> and an offset that is not negative. For
  every category, every limit that is not negative and every offset, the items that
  \<^verbatim>\<open>getStories\<close> returns are at most \<open>limit\<close> many and at most
  \<open>max 0 (total - offset)\<close> many, where \<open>total\<close> is the length of the category's id
  list; and the items are the results of \<^verbatim>\<open>getItem\<close> on a subsequence of that list,
  in its order. The second bound and the order need nothing of the limit.
\<close>

theorem getStories_page:
  assumes "fst (getStories w kind limit offset) = Inr r"
  shows "(0 \<le> limit \<longrightarrow> int (length (stories_items r)) \<le> limit) \<and>
         int (length (stories_items r)) \<le> max 0 (stories_total r - offset) \<and>
         (\<exists>allIds js. fst (getStoryIds w kind) = Inr allIds \<and>
            stories_total r = int (length allIds) \<and>
            subseq js allIds \<and>
            map (\<lambda>j. fst (getItem w j)) js = map (Inr \<circ> Some) (stories_items r))"
proof -
  from assms obtain allIds items where
    ids: "fst (getStoryIds w kind) = Inr allIds"
    and av: "all_values (map (\<lambda>i. fst (getItem w i)) (slice allIds offset (offset + limit)))
               = Inr items"
    and r: "r = \<lparr>stories_items = filter_not_null items, stories_total = int (length allIds)\<rparr>"
    by (auto simp: getStories_fst split: sum.splits)
  let ?page = "slice allIds offset (offset + limit)"
  have m: "map (\<lambda>i. fst (getItem w i)) ?page = map Inr items"
    using av by (rule all_values_Inr_D)
  then have "length items = length ?page"
    by (metis length_map)
  then have len: "length (stories_items r) \<le> length ?page"
    using length_filter_not_null [of items] by (simp add: r)
  have a: "0 \<le> limit \<longrightarrow> int (length (stories_items r)) \<le> limit"
    using len length_slice_limit [of limit allIds offset] by auto
  have b: "int (length (stories_items r)) \<le> max 0 (stories_total r - offset)"
    using len length_slice_total [of allIds offset "offset + limit"] by (simp add: r)
  let ?js = "filter (\<lambda>j. fst (getItem w j) \<noteq> Inr None) ?page"
  have "subseq ?js allIds"
    by (meson subseq_filter_left subseq_slice subseq_order.order_trans)
  moreover have "map (\<lambda>j. fst (getItem w j)) ?js = map (Inr \<circ> Some) (stories_items r)"
    using present_results [OF m] by (simp add: r)
  ultimately show ?thesis
    using a b ids r by auto
qed

theorem getStories_page_witness:
  "fst (getStories sample_world topstories 2 1) =
     Inr \<lparr>stories_items = [comment_item 11 None, comment_item 12 None], stories_total = 5\<rparr> \<and>
   (0 :: int) \<le> 2 \<and>
   int (length [comment_item 11 None, comment_item 12 None]) \<le> 2 \<and>
   int (length [comment_item 11 None, comment_item 12 None]) \<le> max 0 (5 - 1)"
proof -
  have r: "fst (getStories sample_world topstories 2 1) =
     Inr \<lparr>stories_items = [comment_item 11 None, comment_item 12 None], stories_total = 5\<rparr>"
    by (simp add: getStories_def slice_def sample_defs)
  show ?thesis
    using getStories_page [OF r] r by simp
qed

text \<open>
  Claim C6. When the offset is at least the length of the category's id list,
  \<^verbatim>\<open>getStories\<close> returns no items and reports that length as the total, for every
  limit.
\<close>

theorem getStories_offset_beyond:
  assumes "fst (getStoryIds w kind) = Inr allIds"
    and "int (length allIds) \<le> offset"
  shows "fst (getStories w kind limit offset) =
           Inr \<lparr>stories_items = [], stories_total = int (length allIds)\<rparr>"
  using assms by (simp add: getStories_fst slice_beyond)

theorem getStories_offset_beyond_witness:
  "fst (getStories sample_world newstories 10 5) = Inr \<lparr>stories_items = [], stories_total = 5\<rparr>"
proof -
  have i: "fst (getStoryIds sample_world newstories) = Inr [10, 11, 12, 13, 14]"
    by (simp add: sample_defs)
  show ?thesis
    using getStories_offset_beyond [OF i, of 5 10] by simp
qed

section \<open>The fetcher\<close>

text \<open>
  Claim C7. \<^verbatim>\<open>fetchJson\<close> resolves to \<^verbatim>\<open>null\<close> for a response that is not ok,
  whatever its body; and for an ok response whose body is not JSON it rejects with
  the parse error, which its callers \<^verbatim>\<open>getItem\<close> and \<^verbatim>\<open>getStoryIds\<close> pass on (the
  latter turns \<^verbatim>\<open>null\<close> into the empty list, but not the error).
\<close>

theorem fetchJson_status:
  "(fetch url = Response False data \<longrightarrow> fst (fetchJson fetch url) = Inr None) \<and>
   (fetch url = Response True NotJson \<longrightarrow> fst (fetchJson fetch url) = Inl JsonSyntaxError) \<and>
   (fetch_item w (item_request itemId) = Response True NotJson \<longrightarrow>
      fst (getItem w itemId) = Inl JsonSyntaxError) \<and>
   (fetch_ids w (HN_BASE @ ''/'' @ kind_name kind @ ''.json'') = Response True NotJson \<longrightarrow>
      fst (getStoryIds w kind) = Inl JsonSyntaxError)"
  by (simp add: fetchJson_def getItem_def getStoryIds_def)

theorem fetchJson_status_witness:
  "fst (fetchJson (\<lambda>url. Response False (JsonValue (0 :: int))) ''u'') = Inr None \<and>
   fst (fetchJson (\<lambda>url. Response True (NotJson :: int body)) ''u'') = Inl JsonSyntaxError \<and>
   fst (getItem (sample_world\<lparr>fetch_item := \<lambda>url. Response True NotJson\<rparr>) 1) =
     Inl JsonSyntaxError \<and>
   fst (getStoryIds (sample_world\<lparr>fetch_ids := \<lambda>url. Response True NotJson\<rparr>) topstories) =
     Inl JsonSyntaxError"
  using fetchJson_status [of "\<lambda>url. Response False (JsonValue (0 :: int))" "''u''" "JsonValue 0"]
    fetchJson_status [of "\<lambda>url. Response True (NotJson :: int body)" "''u''" NotJson
      "sample_world\<lparr>fetch_item := \<lambda>url. Response True NotJson\<rparr>" 1]
    fetchJson_status [of "\<lambda>url. Response True (NotJson :: int body)" "''u''" NotJson
      "sample_world\<lparr>fetch_ids := \<lambda>url. Response True NotJson\<rparr>" 1 topstories]
  by simp

section \<open>The tool layer\<close>



section \<open>The search request\<close>

text \<open>
  Claim C10. The parameters of the search request always hold \<^verbatim>\<open>query\<close>; they hold
  \<^verbatim>\<open>page\<close> and \<^verbatim>\<open>hitsPerPage\<close> exactly when these are given (also when the page is
  \<open>0\<close>), as decimal strings; they hold \<^verbatim>\<open>tags\<close> and \<^verbatim>\<open>numericFilters\<close> exactly when
  these are given and not the empty string. No name occurs twice, and the one request
  that \<^verbatim>\<open>searchHN\<close> issues is built from these parameters.
\<close>

theorem searchHN_params_included:
  "map_of (searchHN_params query opts) ''query'' = Some query \<and>
   map_of (searchHN_params query opts) ''page'' = map_option String_number (opts_page opts) \<and>
   map_of (searchHN_params query opts) ''hitsPerPage'' =
     map_option String_number (opts_hitsPerPage opts) \<and>
   map_of (searchHN_params query opts) ''tags'' =
     (case opts_tags opts of None \<Rightarrow> None | Some t \<Rightarrow> if t = '''' then None else Some t) \<and>
   map_of (searchHN_params query opts) ''numericFilters'' =
     (case opts_numericFilters opts of
        None \<Rightarrow> None | Some f \<Rightarrow> if f = '''' then None else Some f) \<and>
   distinct (map fst (searchHN_params query opts)) \<and>
   snd (searchHN toString w query opts) =
     {#ALGOLIA_BASE @ ''/search?'' @ toString (searchHN_params query opts)#}"
proof (intro conjI)
  show "snd (searchHN toString w query opts) =
     {#ALGOLIA_BASE @ ''/search?'' @ toString (searchHN_params query opts)#}"
    by (simp add: searchHN_def fetchJson_def split: fetched.splits body.splits)
qed (simp_all add: searchHN_params_eq truthy_case map_option_the)

theorem searchHN_params_included_witness:
  "searchHN_params ''rust''
     \<lparr>opts_tags = Some '''', opts_page = Some 0, opts_hitsPerPage = None,
      opts_numericFilters = None\<rparr> = [(''query'', ''rust''), (''page'', ''0'')] \<and>
   map_of [(''query'', ''rust''), (''page'', ''0'')] ''page'' = Some ''0'' \<and>
   map_of [(''query'', ''rust''), (''page'', ''0'')] ''tags'' = None"
proof -
  have p: "searchHN_params ''rust''
     \<lparr>opts_tags = Some '''', opts_page = Some 0, opts_hitsPerPage = None,
      opts_numericFilters = None\<rparr> = [(''query'', ''rust''), (''page'', ''0'')]"
    by (simp add: searchHN_params_def params_set_def String_number_def digits.simps digit_def)
  show ?thesis
    using searchHN_params_included [of "''rust''"
        "\<lparr>opts_tags = Some '''', opts_page = Some 0, opts_hitsPerPage = None,
          opts_numericFilters = None\<rparr>" "\<lambda>ps. []" sample_world]
    by (simp add: p)
qed

end
